theory Spec2Isabelle
  imports Main "HOL-Library.Multiset"
begin

section \<open>Task model (types/task.ts)\<close>

text \<open>
  \<^verbatim>\<open>TaskPriority = 'low' | 'medium' | 'high' | 'urgent'\<close> and
  \<^verbatim>\<open>TaskStatus = 'pending' | 'completed' | 'archived'\<close> are closed unions of string
  literals; each becomes a datatype.  A \<^verbatim>\<open>Date\<close> is its time value, the number of
  milliseconds since the epoch (only valid dates are modelled).
\<close>

datatype TaskPriority = Low | Medium | High | Urgent

datatype TaskStatus = Pending | Completed | Archived

type_synonym date = int

text \<open>
  A field declared \<^verbatim>\<open>f?: T | null\<close> has three states in the source: not set
  (\<^verbatim>\<open>undefined\<close>), \<^verbatim>\<open>null\<close>, or a value.  A field declared \<^verbatim>\<open>f?: T\<close> is an
  \<open>option\<close> (\<open>None\<close> is \<^verbatim>\<open>undefined\<close>).
\<close>

datatype 'a nullable = Undefined | Null | Value 'a

text \<open>\<^verbatim>\<open>x == null\<close>, equivalently \<^verbatim>\<open>!x\<close> for a \<^verbatim>\<open>Date\<close>-valued field: the field carries no date.\<close>

fun nullish :: "'a nullable \<Rightarrow> bool" where
  "nullish Undefined = True"
| "nullish Null = True"
| "nullish (Value v) = False"

record Task =
  task_id :: string
  title :: string
  description :: "string option"
  dueDate :: "date nullable"
  priority :: TaskPriority
  status :: TaskStatus
  createdAt :: date
  updatedAt :: date
  completedAt :: "date nullable"
  tags :: "string list option"
  listId :: "string option"

record TaskInput =
  in_title :: string
  in_description :: "string option"
  in_dueDate :: "date nullable"
  in_priority :: TaskPriority
  in_status :: "TaskStatus option"
  in_tags :: "string list option"
  in_listId :: "string option"

text \<open>
  \<^verbatim>\<open>Partial<Task>\<close>: every key may be missing from the payload (\<open>None\<close>).  For the
  keys that are optional in \<^verbatim>\<open>Task\<close> itself the payload may also carry an explicit
  \<^verbatim>\<open>undefined\<close> or \<^verbatim>\<open>null\<close>, which the object spread copies like any other value.
  A payload that sets a required key to \<^verbatim>\<open>undefined\<close> would make a value outside
  \<^verbatim>\<open>Task\<close> and is not modelled.
\<close>

record TaskUpdates =
  upd_id :: "string option"
  upd_title :: "string option"
  upd_description :: "string option option"
  upd_dueDate :: "date nullable option"
  upd_priority :: "TaskPriority option"
  upd_status :: "TaskStatus option"
  upd_createdAt :: "date option"
  upd_updatedAt :: "date option"
  upd_completedAt :: "date nullable option"
  upd_tags :: "string list option option"
  upd_listId :: "string option option"

section \<open>Task Collection Manager (hooks/useTaskList.ts)\<close>

text \<open>
  The hook keeps the collection in React state; every operation is modelled as a
  function from the collection before to the collection after.  A call of
  \<^verbatim>\<open>new Date()\<close> or \<^verbatim>\<open>Date.now()\<close> is a parameter holding the clock reading.
\<close>

subsection \<open>addTask\<close>

text \<open>Decimal text of a number, as a template literal renders \<^verbatim>\<open>Date.now()\<close>.\<close>

fun digit_char :: "nat \<Rightarrow> char" where
  "digit_char n = ''0123456789'' ! n"

fun nat_text :: "nat \<Rightarrow> string" where
  "nat_text n = (if n < 10 then [digit_char n] else nat_text (n div 10) @ [digit_char (n mod 10)])"

declare nat_text.simps [simp del]

definition int_text :: "int \<Rightarrow> string" where
  "int_text i = (if i < 0 then CHR ''-'' # nat_text (nat (- i)) else nat_text (nat i))"

text \<open>\<^verbatim>\<open>s.substr(start, len)\<close> for non-negative arguments.\<close>

definition substr :: "string \<Rightarrow> nat \<Rightarrow> nat \<Rightarrow> string" where
  "substr s start len = take len (drop start s)"

text \<open>
  \<^verbatim>\<open>input.status || 'pending'\<close>: every status literal is a non-empty string, so only an
  unset status is falsy.
\<close>

definition status_or_pending :: "TaskStatus option \<Rightarrow> TaskStatus" where
  "status_or_pending s = (case s of None \<Rightarrow> Pending | Some st \<Rightarrow> st)"

text \<open>
  \<open>addTask nowId rnd nowCreated nowUpdated input prev\<close>: \<open>nowId\<close> is the reading of
  \<^verbatim>\<open>Date.now()\<close>, \<open>rnd\<close> the text \<^verbatim>\<open>Math.random().toString(36)\<close>, \<open>nowCreated\<close> and
  \<open>nowUpdated\<close> the two readings of \<^verbatim>\<open>new Date()\<close>.  The object literal has no
  \<^verbatim>\<open>completedAt\<close> key.  The result is the returned task and the new collection.
\<close>

definition addTask ::
  "int \<Rightarrow> string \<Rightarrow> date \<Rightarrow> date \<Rightarrow> TaskInput \<Rightarrow> Task list \<Rightarrow> Task \<times> Task list" where
  "addTask nowId rnd nowCreated nowUpdated input prev =
     (let newTask = \<lparr>
            task_id = ''task-'' @ int_text nowId @ ''-'' @ substr rnd 2 9,
            title = in_title input,
            description = in_description input,
            dueDate = in_dueDate input,
            priority = in_priority input,
            status = status_or_pending (in_status input),
            createdAt = nowCreated,
            updatedAt = nowUpdated,
            completedAt = Undefined,
            tags = in_tags input,
            listId = in_listId input \<rparr>
      in (newTask, newTask # prev))"

subsection \<open>updateTask\<close>

text \<open>\<^verbatim>\<open>{ ...task, ...updates }\<close>: a key of the payload overrides the task's field.\<close>

definition override :: "'a option \<Rightarrow> 'a \<Rightarrow> 'a" where
  "override u old = (case u of None \<Rightarrow> old | Some v \<Rightarrow> v)"

definition merge_updates :: "Task \<Rightarrow> TaskUpdates \<Rightarrow> date \<Rightarrow> Task" where
  "merge_updates task updates now = \<lparr>
     task_id = override (upd_id updates) (task_id task),
     title = override (upd_title updates) (title task),
     description = override (upd_description updates) (description task),
     dueDate = override (upd_dueDate updates) (dueDate task),
     priority = override (upd_priority updates) (priority task),
     status = override (upd_status updates) (status task),
     createdAt = override (upd_createdAt updates) (createdAt task),
     updatedAt = now,
     completedAt = override (upd_completedAt updates) (completedAt task),
     tags = override (upd_tags updates) (tags task),
     listId = override (upd_listId updates) (listId task) \<rparr>"

definition updateTask :: "date \<Rightarrow> string \<Rightarrow> TaskUpdates \<Rightarrow> Task list \<Rightarrow> Task list" where
  "updateTask now i updates prev =
     map (\<lambda>task. if task_id task = i then merge_updates task updates now else task) prev"

subsection \<open>deleteTask, updateTaskStatus, clearCompleted\<close>

text \<open>
  \<^verbatim>\<open>updateTaskStatus\<close> reads the clock twice, once for \<^verbatim>\<open>completedAt\<close> and once for
  \<^verbatim>\<open>updatedAt\<close>.
\<close>

definition deleteTask :: "string \<Rightarrow> Task list \<Rightarrow> Task list" where
  "deleteTask i prev = filter (\<lambda>task. task_id task \<noteq> i) prev"

definition updateTaskStatus ::
  "date \<Rightarrow> date \<Rightarrow> string \<Rightarrow> TaskStatus \<Rightarrow> Task list \<Rightarrow> Task list" where
  "updateTaskStatus nowCompleted nowUpdated i st prev =
     map (\<lambda>task. if task_id task = i
                  then task\<lparr> status := st,
                             completedAt := (if st = Completed then Value nowCompleted else Null),
                             updatedAt := nowUpdated \<rparr>
                  else task) prev"

definition clearCompleted :: "Task list \<Rightarrow> Task list" where
  "clearCompleted prev =
     map (\<lambda>task. if status task = Completed then task\<lparr> status := Archived \<rparr> else task) prev"

subsection \<open>Query helpers\<close>

text \<open>The argument of \<^verbatim>\<open>getTasksByStatus\<close> is \<^verbatim>\<open>TaskStatus | 'all'\<close>.\<close>

datatype StatusFilter = AllStatuses | Only TaskStatus

fun getTasksByStatus :: "StatusFilter \<Rightarrow> Task list \<Rightarrow> Task list" where
  "getTasksByStatus AllStatuses tasks = filter (\<lambda>t. status t \<noteq> Archived) tasks"
| "getTasksByStatus (Only s) tasks = filter (\<lambda>t. status t = s) tasks"

definition getTasksByPriority :: "TaskPriority \<Rightarrow> Task list \<Rightarrow> Task list" where
  "getTasksByPriority p tasks = filter (\<lambda>t. priority t = p) tasks"

text \<open>
  \<^verbatim>\<open>t.dueDate && new Date(t.dueDate) < now && ...\<close>: a \<^verbatim>\<open>Date\<close> object is truthy,
  \<^verbatim>\<open>null\<close> and \<^verbatim>\<open>undefined\<close> are falsy; the comparison is between the two instants.
\<close>

definition overdue_at :: "date \<Rightarrow> Task \<Rightarrow> bool" where
  "overdue_at now t =
     (case dueDate t of
        Value d \<Rightarrow> d < now \<and> status t \<noteq> Completed \<and> status t \<noteq> Archived
      | _ \<Rightarrow> False)"

definition getOverdueTasks :: "date \<Rightarrow> Task list \<Rightarrow> Task list" where
  "getOverdueTasks now tasks = filter (overdue_at now) tasks"

section \<open>Derived-view utilities (utils/task.ts)\<close>

subsection \<open>getPriorityValue, sortByPriority\<close>

fun getPriorityValue :: "TaskPriority \<Rightarrow> int" where
  "getPriorityValue Low = 1"
| "getPriorityValue Medium = 2"
| "getPriorityValue High = 3"
| "getPriorityValue Urgent = 4"

text \<open>
  \<^verbatim>\<open>Array.prototype.sort(cmp)\<close> is a stable sort: with a consistent comparator the
  result is the one stable arrangement in which \<open>a\<close> comes before \<open>b\<close> whenever
  \<open>cmp a b < 0\<close>.  It is modelled by insertion from the right, where an element goes in
  front of the first element it does not have to follow.
\<close>

fun insert_by :: "('a \<Rightarrow> 'a \<Rightarrow> int) \<Rightarrow> 'a \<Rightarrow> 'a list \<Rightarrow> 'a list" where
  "insert_by cmp x [] = [x]"
| "insert_by cmp x (y # ys) = (if cmp x y \<le> 0 then x # y # ys else y # insert_by cmp x ys)"

definition array_sort :: "('a \<Rightarrow> 'a \<Rightarrow> int) \<Rightarrow> 'a list \<Rightarrow> 'a list" where
  "array_sort cmp xs = foldr (insert_by cmp) xs []"

text \<open>The comparator passed by \<^verbatim>\<open>sortByPriority\<close>.\<close>

definition priority_cmp :: "Task \<Rightarrow> Task \<Rightarrow> int" where
  "priority_cmp a b = getPriorityValue (priority b) - getPriorityValue (priority a)"

text \<open>
  Arrays are objects: a variable holds a reference, and \<^verbatim>\<open>sort\<close> rearranges the array it
  is called on.  The store maps a reference (an index) to the array's contents.
  \<^verbatim>\<open>[...tasks]\<close> allocates a new array with the same elements; \<^verbatim>\<open>sort\<close> then works on
  that array and returns its reference.
\<close>

type_synonym heap = "Task list list"

definition spread_copy :: "heap \<Rightarrow> nat \<Rightarrow> nat \<times> heap" where
  "spread_copy h a = (length h, h @ [h ! a])"

definition sort_in_place :: "(Task \<Rightarrow> Task \<Rightarrow> int) \<Rightarrow> heap \<Rightarrow> nat \<Rightarrow> nat \<times> heap" where
  "sort_in_place cmp h b = (b, h[b := array_sort cmp (h ! b)])"

definition sortByPriority :: "heap \<Rightarrow> nat \<Rightarrow> nat \<times> heap" where
  "sortByPriority h tasks = (case spread_copy h tasks of (b, h1) \<Rightarrow> sort_in_place priority_cmp h1 b)"

subsection \<open>isTaskOverdue\<close>

text \<open>
  \<^verbatim>\<open>d.setHours(0, 0, 0, 0)\<close> moves a date to the start of its local calendar day.  The
  local zone is a fixed offset \<open>tz\<close> from UTC, in milliseconds.  This is exact for a zone
  whose offset never changes, such as UTC (\<open>tz = 0\<close>); in a zone with daylight-saving
  time it differs from \<^verbatim>\<open>setHours\<close> on the days the offset changes, and nothing below
  is stated about such days.
\<close>

definition msPerDay :: int where
  "msPerDay = 86400000"

definition setHours0 :: "int \<Rightarrow> date \<Rightarrow> date" where
  "setHours0 tz t = t - ((t + tz) mod msPerDay)"

text \<open>\<open>now\<close> is the reading of \<^verbatim>\<open>new Date()\<close> inside \<^verbatim>\<open>isTaskOverdue\<close>.\<close>

definition isTaskOverdue :: "int \<Rightarrow> date \<Rightarrow> Task \<Rightarrow> bool" where
  "isTaskOverdue tz now task =
     (case dueDate task of
        Value d \<Rightarrow>
          if status task = Completed \<or> status task = Archived then False
          else setHours0 tz d < setHours0 tz now
      | _ \<Rightarrow> False)"

subsection \<open>groupTasks\<close>

text \<open>
  \<^verbatim>\<open>groupTasks\<close> is generic in the key; the groupable fields are \<^verbatim>\<open>status\<close> and
  \<^verbatim>\<open>priority\<close>, the two its callers offer.  \<^verbatim>\<open>String(task[groupBy])\<close> is then the
  literal itself.  The result object is a list of (key, array) pairs in the order in
  which the keys were first set.
\<close>

datatype GroupKey = ByStatus | ByPriority

fun status_text :: "TaskStatus \<Rightarrow> string" where
  "status_text Pending = ''pending''"
| "status_text Completed = ''completed''"
| "status_text Archived = ''archived''"

fun priority_text :: "TaskPriority \<Rightarrow> string" where
  "priority_text Low = ''low''"
| "priority_text Medium = ''medium''"
| "priority_text High = ''high''"
| "priority_text Urgent = ''urgent''"

fun key_text :: "GroupKey \<Rightarrow> Task \<Rightarrow> string" where
  "key_text ByStatus task = status_text (status task)"
| "key_text ByPriority task = priority_text (priority task)"

text \<open>
  One turn of the \<^verbatim>\<open>forEach\<close>: \<^verbatim>\<open>if (!grouped[key]) grouped[key] = []\<close>, then
  \<^verbatim>\<open>grouped[key].push(task)\<close>.
\<close>

definition push_to :: "string \<Rightarrow> Task \<Rightarrow> (string \<times> Task list) list \<Rightarrow> (string \<times> Task list) list" where
  "push_to key task grouped = map (\<lambda>(k, ts). if k = key then (k, ts @ [task]) else (k, ts)) grouped"

definition group_step :: "GroupKey \<Rightarrow> (string \<times> Task list) list \<Rightarrow> Task \<Rightarrow> (string \<times> Task list) list" where
  "group_step gb grouped task =
     (let key = key_text gb task;
          grouped1 = (if map_of grouped key = None then grouped @ [(key, [])] else grouped)
      in push_to key task grouped1)"

definition groupTasks :: "Task list \<Rightarrow> GroupKey \<Rightarrow> (string \<times> Task list) list" where
  "groupTasks tasks gb = foldl (group_step gb) [] tasks"

section \<open>Persisted store (hooks/useLocalStorage.ts)\<close>

subsection \<open>The stored document\<close>

text \<open>
  \<^verbatim>\<open>JSON.stringify\<close> writes a \<^verbatim>\<open>Date\<close> as the text \<^verbatim>\<open>toISOString()\<close> gives, and the
  \<^verbatim>\<open>Date\<close> constructor reads that text back to the same time value.  The text itself
  is kept abstract: \<open>Iso t\<close> is the ISO string of the instant \<open>t\<close>; it is a string (never
  empty, so truthy), not a date.  A key whose value is \<^verbatim>\<open>undefined\<close> is left out of the
  document; reading it from the parsed object gives \<^verbatim>\<open>undefined\<close> again.
\<close>

datatype iso_text = Iso date

record JTask =
  j_id :: string
  j_title :: string
  j_description :: "string option"
  j_dueDate :: "iso_text nullable"
  j_priority :: TaskPriority
  j_status :: TaskStatus
  j_createdAt :: iso_text
  j_updatedAt :: iso_text
  j_completedAt :: "iso_text nullable"
  j_tags :: "string list option"
  j_listId :: "string option"

fun nullable_toJSON :: "date nullable \<Rightarrow> iso_text nullable" where
  "nullable_toJSON Undefined = Undefined"
| "nullable_toJSON Null = Null"
| "nullable_toJSON (Value d) = Value (Iso d)"

definition task_toJSON :: "Task \<Rightarrow> JTask" where
  "task_toJSON t = \<lparr>
     j_id = task_id t, j_title = title t, j_description = description t,
     j_dueDate = nullable_toJSON (dueDate t),
     j_priority = priority t, j_status = status t,
     j_createdAt = Iso (createdAt t), j_updatedAt = Iso (updatedAt t),
     j_completedAt = nullable_toJSON (completedAt t),
     j_tags = tags t, j_listId = listId t \<rparr>"

text \<open>The document \<^verbatim>\<open>JSON.parse(JSON.stringify(tasks))\<close> denotes.\<close>

definition stringify :: "Task list \<Rightarrow> JTask list" where
  "stringify tasks = map task_toJSON tasks"

text \<open>\<^verbatim>\<open>new Date(text)\<close>.\<close>

fun new_Date :: "iso_text \<Rightarrow> date" where
  "new_Date (Iso t) = t"

text \<open>\<^verbatim>\<open>x ? new Date(x) : null\<close>.\<close>

fun date_or_null :: "iso_text nullable \<Rightarrow> date nullable" where
  "date_or_null (Value s) = Value (new_Date s)"
| "date_or_null Null = Null"
| "date_or_null Undefined = Null"

text \<open>The function mapped over the parsed array, in the initialiser and in the storage listener.\<close>

definition reconstruct :: "JTask \<Rightarrow> Task" where
  "reconstruct j = \<lparr>
     task_id = j_id j, title = j_title j, description = j_description j,
     dueDate = date_or_null (j_dueDate j),
     priority = j_priority j, status = j_status j,
     createdAt = new_Date (j_createdAt j), updatedAt = new_Date (j_updatedAt j),
     completedAt = date_or_null (j_completedAt j),
     tags = j_tags j, listId = j_listId j \<rparr>"

subsection \<open>window.localStorage\<close>

text \<open>
  An item is a text: the empty text, a text that \<^verbatim>\<open>JSON.parse\<close> or the reconstruction
  rejects, or a document of task records.  \<open>write_fault\<close> is the exception the next
  \<^verbatim>\<open>setItem\<close> raises (quota exceeded, storage disabled), \<open>read_fault\<close> the one
  \<^verbatim>\<open>getItem\<close> raises, if any.
\<close>

datatype stored = Doc "JTask list" | EmptyText | Malformed

datatype StorageError = QuotaExceededError | SecurityError

record Storage =
  items :: "string \<Rightarrow> stored option"
  write_fault :: "StorageError option"
  read_fault :: "StorageError option"

definition getItem :: "Storage \<Rightarrow> string \<Rightarrow> StorageError + stored option" where
  "getItem st key = (case read_fault st of Some e \<Rightarrow> Inl e | None \<Rightarrow> Inr (items st key))"

definition setItem :: "Storage \<Rightarrow> string \<Rightarrow> stored \<Rightarrow> StorageError + Storage" where
  "setItem st key v =
     (case write_fault st of
        Some e \<Rightarrow> Inl e
      | None \<Rightarrow> Inr (st\<lparr> items := (items st)(key \<mapsto> v) \<rparr>))"

subsection \<open>The hook\<close>

text \<open>
  \<open>window\<close> is \<open>None\<close> where \<^verbatim>\<open>typeof window === 'undefined'\<close>; \<open>console\<close> collects the
  messages of \<^verbatim>\<open>console.warn\<close>.  \<^verbatim>\<open>setStoredValue\<close> is taken to replace the state at
  once.
\<close>

record HookState =
  storedValue :: "Task list"
  window :: "Storage option"
  console :: "string list"

definition read_warning :: "string \<Rightarrow> string" where
  "read_warning key = ''Error reading from localStorage ('' @ key @ ''):''"

definition write_warning :: "string \<Rightarrow> string" where
  "write_warning key = ''Error writing to localStorage ('' @ key @ ''):''"

text \<open>
  The initialiser of \<^verbatim>\<open>useState\<close>: the value the hook starts with and what it logs.
\<close>

definition useLocalStorage_init :: "string \<Rightarrow> Task list \<Rightarrow> Storage option \<Rightarrow> Task list \<times> string list" where
  "useLocalStorage_init key initialValue w =
     (case w of
        None \<Rightarrow> (initialValue, [])
      | Some st \<Rightarrow>
          (case getItem st key of
             Inl e \<Rightarrow> (initialValue, [read_warning key])
           | Inr None \<Rightarrow> (initialValue, [])
           | Inr (Some EmptyText) \<Rightarrow> (initialValue, [])
           | Inr (Some Malformed) \<Rightarrow> (initialValue, [read_warning key])
           | Inr (Some (Doc parsed)) \<Rightarrow> (map reconstruct parsed, [])))"

text \<open>The argument of \<^verbatim>\<open>setValue\<close>: a collection, or a function of the current one.\<close>

datatype SetterArg = Direct "Task list" | Updater "Task list \<Rightarrow> Task list"

fun value_to_store :: "SetterArg \<Rightarrow> Task list \<Rightarrow> Task list" where
  "value_to_store (Direct v) cur = v"
| "value_to_store (Updater f) cur = f cur"

text \<open>How a block of statements ends: normally, or by an exception.\<close>

datatype outcome = Returned | Thrown StorageError

text \<open>
  The body of the \<^verbatim>\<open>try\<close>: \<^verbatim>\<open>setStoredValue\<close> comes first, the write second, so the
  state is already replaced when \<^verbatim>\<open>setItem\<close> raises.
\<close>

definition setValue_try :: "string \<Rightarrow> SetterArg \<Rightarrow> HookState \<Rightarrow> outcome \<times> HookState" where
  "setValue_try key v s =
     (let valueToStore = value_to_store v (storedValue s);
          s1 = s\<lparr> storedValue := valueToStore \<rparr>
      in case window s1 of
           None \<Rightarrow> (Returned, s1)
         | Some st \<Rightarrow>
             (case setItem st key (Doc (stringify valueToStore)) of
                Inl e \<Rightarrow> (Thrown e, s1)
              | Inr st' \<Rightarrow> (Returned, s1\<lparr> window := Some st' \<rparr>)))"

text \<open>\<^verbatim>\<open>setValue\<close>: the \<^verbatim>\<open>catch\<close> logs a warning and ends normally.\<close>

definition setValue :: "string \<Rightarrow> SetterArg \<Rightarrow> HookState \<Rightarrow> outcome \<times> HookState" where
  "setValue key v s =
     (case setValue_try key v s of
        (Returned, s') \<Rightarrow> (Returned, s')
      | (Thrown e, s') \<Rightarrow> (Returned, s'\<lparr> console := console s' @ [write_warning key] \<rparr>))"

text \<open>Saving a collection and then mounting the hook again on the same storage.\<close>

definition save_then_load :: "string \<Rightarrow> Task list \<Rightarrow> Task list \<Rightarrow> HookState \<Rightarrow> Task list" where
  "save_then_load key tasks initialValue s =
     fst (useLocalStorage_init key initialValue (window (snd (setValue key (Direct tasks) s))))"

section \<open>Properties named by the specification\<close>

text \<open>
  The invariant of the data model: \<^verbatim>\<open>completedAt\<close> is non-null if and only if the
  status is completed.  Non-null is read as carrying a date, so that a task whose
  \<^verbatim>\<open>completedAt\<close> was never set counts as having none.
\<close>

definition completion_inv :: "Task \<Rightarrow> bool" where
  "completion_inv t = ((\<not> nullish (completedAt t)) = (status t = Completed))"

text \<open>
  The rank of a priority as the specification gives it: low 1, medium 2, high 3, urgent 4.
  It is written here independently of \<^verbatim>\<open>getPriorityValue\<close>, to compare the two.
\<close>

definition priorityRank :: "TaskPriority \<Rightarrow> int" where
  "priorityRank p = (case p of Low \<Rightarrow> 1 | Medium \<Rightarrow> 2 | High \<Rightarrow> 3 | Urgent \<Rightarrow> 4)"

text \<open>The payload \<^verbatim>\<open>{}\<close>.\<close>

definition no_updates :: TaskUpdates where
  "no_updates = \<lparr>
     upd_id = None, upd_title = None, upd_description = None, upd_dueDate = None,
     upd_priority = None, upd_status = None, upd_createdAt = None, upd_updatedAt = None,
     upd_completedAt = None, upd_tags = None, upd_listId = None \<rparr>"

text \<open>What becomes of a task on the way through the store: an unset date is an explicit null.\<close>

fun unset_to_null :: "date nullable \<Rightarrow> date nullable" where
  "unset_to_null Undefined = Null"
| "unset_to_null Null = Null"
| "unset_to_null (Value d) = Value d"

definition with_explicit_nulls :: "Task \<Rightarrow> Task" where
  "with_explicit_nulls t =
     t\<lparr> dueDate := unset_to_null (dueDate t), completedAt := unset_to_null (completedAt t) \<rparr>"

section \<open>Examples used below\<close>

definition sample :: "string \<Rightarrow> TaskPriority \<Rightarrow> TaskStatus \<Rightarrow> date nullable \<Rightarrow> date nullable \<Rightarrow> Task" where
  "sample i p st due done = \<lparr>
     task_id = i, title = ''Buy milk'', description = None, dueDate = due,
     priority = p, status = st, createdAt = 1000, updatedAt = 1000,
     completedAt = done, tags = None, listId = None \<rparr>"

definition sample_input :: "TaskStatus option \<Rightarrow> TaskInput" where
  "sample_input st = \<lparr>
     in_title = ''Buy milk'', in_description = None, in_dueDate = Undefined,
     in_priority = Low, in_status = st, in_tags = None, in_listId = None \<rparr>"

definition empty_storage :: Storage where
  "empty_storage = \<lparr> items = (\<lambda>k. None), write_fault = None, read_fault = None \<rparr>"

definition fresh_hook :: "Storage \<Rightarrow> HookState" where
  "fresh_hook st = \<lparr> storedValue = [], window = Some st, console = [] \<rparr>"

text \<open>A completed task and a pending one; six tasks of mixed priority and status.\<close>

definition two_tasks :: "Task list" where
  "two_tasks = [sample ''a'' Low Completed (Value 5000) (Value 1000), sample ''b'' High Pending Null Null]"

definition six_tasks :: "Task list" where
  "six_tasks = [sample ''a'' Low Pending Null Null, sample ''b'' High Completed Null (Value 1000),
                sample ''c'' Medium Pending Null Null, sample ''d'' Low Pending Null Null,
                sample ''e'' Urgent Archived Null Null, sample ''f'' High Pending Null Null]"

text \<open>A storage whose next write fails.\<close>

definition full_storage :: Storage where
  "full_storage = \<lparr> items = (\<lambda>k. None), write_fault = Some QuotaExceededError, read_fault = None \<rparr>"

text \<open>A hook that holds the two tasks, over the storage whose next write fails.\<close>

definition loaded_hook :: HookState where
  "loaded_hook = \<lparr> storedValue = two_tasks, window = Some full_storage, console = [] \<rparr>"

section \<open>The completion invariant\<close>

lemma inv_deleteTask: "list_all completion_inv ts \<Longrightarrow> list_all completion_inv (deleteTask i ts)"
  by (induction ts) (auto simp: deleteTask_def)

lemma inv_updateTaskStatus:
  "list_all completion_inv ts \<Longrightarrow> list_all completion_inv (updateTaskStatus nc nu i st ts)"
  by (induction ts) (auto simp: updateTaskStatus_def completion_inv_def)

lemma inv_addTask:
  "list_all completion_inv ts \<Longrightarrow>
   list_all completion_inv (snd (addTask n r c u input ts)) = (in_status input \<noteq> Some Completed)"
  by (auto simp: addTask_def completion_inv_def status_or_pending_def Let_def split: option.splits)

lemma inv_merge_updates:
  "upd_status u = None \<Longrightarrow> upd_completedAt u = None \<Longrightarrow>
   completion_inv (merge_updates t u now) = completion_inv t"
  by (simp add: merge_updates_def completion_inv_def override_def)

lemma inv_updateTask:
  "list_all completion_inv ts \<Longrightarrow> upd_status u = None \<Longrightarrow> upd_completedAt u = None \<Longrightarrow>
   list_all completion_inv (updateTask now i u ts)"
  by (induction ts) (auto simp: updateTask_def inv_merge_updates)

lemma clearCompleted_completedAt: "map completedAt (clearCompleted ts) = map completedAt ts"
  by (induction ts) (auto simp: clearCompleted_def)

lemma inv_clearCompleted:
  "list_all completion_inv ts \<Longrightarrow>
   list_all completion_inv (clearCompleted ts) = (\<forall>t \<in> set ts. status t \<noteq> Completed)"
  by (induction ts) (auto simp: clearCompleted_def completion_inv_def)

text \<open>
  C1 (as amended).  On a collection in which every task carries a completion date
  exactly when it is completed: \<^verbatim>\<open>deleteTask\<close> and \<^verbatim>\<open>updateTaskStatus\<close> keep that
  invariant; \<^verbatim>\<open>addTask\<close> keeps it exactly when the input does not ask for the status
  completed (the new task never has a completion date); \<^verbatim>\<open>updateTask\<close> keeps it when
  the payload sets neither \<^verbatim>\<open>status\<close> nor \<^verbatim>\<open>completedAt\<close>; \<^verbatim>\<open>clearCompleted\<close> leaves
  every \<^verbatim>\<open>completedAt\<close> as it is, so the invariant holds afterwards exactly when no
  task was completed before.
\<close>

theorem completion_inv_preservation:
  assumes "list_all completion_inv ts"
  shows "list_all completion_inv (deleteTask i ts)
   \<and> list_all completion_inv (updateTaskStatus nowCompleted nowUpdated i st ts)
   \<and> (list_all completion_inv (snd (addTask nowId rnd nowCreated nowUpdated input ts))
        = (in_status input \<noteq> Some Completed))
   \<and> (upd_status u = None \<and> upd_completedAt u = None
        \<longrightarrow> list_all completion_inv (updateTask now i u ts))
   \<and> map completedAt (clearCompleted ts) = map completedAt ts
   \<and> (list_all completion_inv (clearCompleted ts) = (\<forall>t \<in> set ts. status t \<noteq> Completed))"
  using assms
  by (simp add: inv_deleteTask inv_updateTaskStatus inv_addTask inv_updateTask
        clearCompleted_completedAt inv_clearCompleted)

text \<open>The amended statement at a completed and a pending task.\<close>

theorem completion_inv_preservation_witness:
  "list_all completion_inv two_tasks
   \<and> list_all completion_inv (deleteTask ''b'' two_tasks)
   \<and> list_all completion_inv (updateTaskStatus 2000 2000 ''b'' Completed two_tasks)
   \<and> list_all completion_inv (snd (addTask 2000 ''0.4fzyo82mvyr'' 2000 2000 (sample_input None) two_tasks))
   \<and> upd_status (no_updates\<lparr> upd_title := Some ''Buy bread'' \<rparr>) = None
   \<and> upd_completedAt (no_updates\<lparr> upd_title := Some ''Buy bread'' \<rparr>) = None
   \<and> list_all completion_inv (updateTask 2000 ''b'' (no_updates\<lparr> upd_title := Some ''Buy bread'' \<rparr>) two_tasks)
   \<and> map completedAt (clearCompleted two_tasks) = [Value 1000, Null]
   \<and> \<not> list_all completion_inv (clearCompleted two_tasks)"
proof -
  have h: "list_all completion_inv two_tasks"
    by (simp add: two_tasks_def sample_def completion_inv_def)
  have s: "in_status (sample_input None) \<noteq> Some Completed"
    by (simp add: sample_input_def)
  have c: "\<not> (\<forall>t \<in> set two_tasks. status t \<noteq> Completed)"
    by (simp add: two_tasks_def sample_def)
  have m: "map completedAt two_tasks = [Value 1000, Null]"
    by (simp add: two_tasks_def sample_def)
  show ?thesis
    using h s c m
      completion_inv_preservation [OF h, where i = "''b''" and nowCompleted = 2000
        and nowUpdated = 2000 and st = Completed and nowId = 2000 and rnd = "''0.4fzyo82mvyr''"
        and nowCreated = 2000 and input = "sample_input None"
        and u = "no_updates\<lparr> upd_title := Some ''Buy bread'' \<rparr>" and now = 2000]
    by (simp add: no_updates_def)
qed

text \<open>
  The claim as stated fails: the invariant holds of a completed task with a completion
  date and no longer holds once \<^verbatim>\<open>clearCompleted\<close> has archived it; it holds of a
  pending task and no longer holds once \<^verbatim>\<open>updateTask\<close> has merged the payload
  \<^verbatim>\<open>{ status: 'completed' }\<close> into it.
\<close>

theorem completion_inv_not_preserved:
  "list_all completion_inv [sample ''a'' Low Completed Null (Value 1000)]
   \<and> \<not> list_all completion_inv (clearCompleted [sample ''a'' Low Completed Null (Value 1000)])
   \<and> list_all completion_inv [sample ''b'' High Pending Null Null]
   \<and> \<not> list_all completion_inv
         (updateTask 2000 ''b'' (no_updates\<lparr> upd_status := Some Completed \<rparr>) [sample ''b'' High Pending Null Null])"
  by (simp add: completion_inv_def clearCompleted_def updateTask_def merge_updates_def override_def
        no_updates_def sample_def)

section \<open>Overdue tasks\<close>

lemma setHours0_div: "setHours0 tz t = ((t + tz) div msPerDay) * msPerDay - tz"
  unfolding setHours0_def by (simp add: algebra_simps minus_mod_eq_mult_div)

lemma setHours0_mono:
  assumes "d \<le> n"
  shows "setHours0 tz d \<le> setHours0 tz n"
proof -
  from assms have "(d + tz) div msPerDay \<le> (n + tz) div msPerDay"
    by (intro zdiv_mono1) (simp_all add: msPerDay_def)
  then show ?thesis
    unfolding setHours0_div by (simp add: msPerDay_def)
qed

lemma setHours0_less: "setHours0 tz d < setHours0 tz n \<Longrightarrow> d < n"
  using setHours0_mono [of n d tz] by linarith

lemma setHours0_le: "setHours0 tz d \<le> d"
  unfolding setHours0_def by (simp add: msPerDay_def)

lemma isTaskOverdue_overdue_at: "isTaskOverdue tz now t \<Longrightarrow> overdue_at now t"
  by (auto simp: isTaskOverdue_def overdue_at_def split: nullable.splits if_splits dest: setHours0_less)

lemma overdue_at_midnight:
  assumes m: "setHours0 tz now = now"
  shows "overdue_at now t = isTaskOverdue tz now t"
proof (cases "dueDate t")
  case (Value d)
  have "(d < now) = (setHours0 tz d < setHours0 tz now)"
    using setHours0_less [of tz d now] setHours0_le [of tz d] m by linarith
  with Value show ?thesis
    by (auto simp: isTaskOverdue_def overdue_at_def)
qed (simp_all add: isTaskOverdue_def overdue_at_def)

text \<open>
  What \<^verbatim>\<open>getOverdueTasks\<close> computes: it compares instants, without truncating either
  date to midnight.  Every task that \<^verbatim>\<open>isTaskOverdue\<close> selects is among its results,
  and the two selections coincide when \<open>now\<close> is itself the start of a calendar day.
\<close>

lemma getOverdueTasks_by_instant:
  "getOverdueTasks now tasks =
     filter (\<lambda>t. (\<exists>d. dueDate t = Value d \<and> d < now) \<and> status t \<noteq> Completed \<and> status t \<noteq> Archived) tasks"
  unfolding getOverdueTasks_def
  by (rule filter_cong) (auto simp: overdue_at_def split: nullable.splits)

lemma getOverdueTasks_contains_isTaskOverdue:
  "filter (isTaskOverdue tz now) (getOverdueTasks now tasks) = filter (isTaskOverdue tz now) tasks"
  unfolding getOverdueTasks_def filter_filter
  by (rule filter_cong) (auto dest: isTaskOverdue_overdue_at)

lemma getOverdueTasks_at_midnight:
  "setHours0 tz now = now \<Longrightarrow> getOverdueTasks now tasks = filter (isTaskOverdue tz now) tasks"
  unfolding getOverdueTasks_def by (rule filter_cong) (auto simp: overdue_at_midnight)

text \<open>
  C2.  \<^verbatim>\<open>getOverdueTasks\<close> does not return exactly the tasks \<^verbatim>\<open>isTaskOverdue\<close> selects.
  At noon UTC of the first day after the epoch's midnight, a pending task due at 08:00
  of the same day is returned by \<^verbatim>\<open>getOverdueTasks\<close>, while \<^verbatim>\<open>isTaskOverdue\<close>, which
  truncates both dates to midnight, does not count it as overdue.
\<close>

theorem getOverdueTasks_differs_from_isTaskOverdue:
  "getOverdueTasks 43200000 [sample ''a'' Low Pending (Value 28800000) Null]
     = [sample ''a'' Low Pending (Value 28800000) Null]
   \<and> filter (isTaskOverdue 0 43200000) [sample ''a'' Low Pending (Value 28800000) Null] = []"
  by (simp add: getOverdueTasks_def overdue_at_def isTaskOverdue_def setHours0_def msPerDay_def sample_def)

section \<open>Refreshing updatedAt\<close>

lemma updateTask_refreshes:
  "k < length ts \<Longrightarrow> updateTask now i u ts ! k \<noteq> ts ! k \<Longrightarrow> updatedAt (updateTask now i u ts ! k) = now"
  by (auto simp: updateTask_def merge_updates_def split: if_splits)

lemma updateTaskStatus_refreshes:
  "k < length ts \<Longrightarrow> updateTaskStatus nc now i st ts ! k \<noteq> ts ! k \<Longrightarrow>
   updatedAt (updateTaskStatus nc now i st ts ! k) = now"
  by (auto simp: updateTaskStatus_def split: if_splits)

lemma clearCompleted_updatedAt: "map updatedAt (clearCompleted ts) = map updatedAt ts"
  by (induction ts) (auto simp: clearCompleted_def)

text \<open>
  C3.  \<^verbatim>\<open>updateTask\<close> and \<^verbatim>\<open>updateTaskStatus\<close> set \<^verbatim>\<open>updatedAt\<close> to the clock reading on
  every task they change (the two lemmas above), but \<^verbatim>\<open>clearCompleted\<close> does not: run
  at any instant after 1000 on a completed task last updated at 1000, it changes the
  status to archived and leaves \<^verbatim>\<open>updatedAt\<close> at 1000.
\<close>

theorem clearCompleted_keeps_updatedAt:
  "clearCompleted [sample ''a'' Low Completed Null (Value 1000)]
     = [sample ''a'' Low Archived Null (Value 1000)]
   \<and> sample ''a'' Low Archived Null (Value 1000) \<noteq> sample ''a'' Low Completed Null (Value 1000)
   \<and> updatedAt (sample ''a'' Low Archived Null (Value 1000)) = 1000"
  by (simp add: clearCompleted_def sample_def)

section \<open>updateTask\<close>

lemma updateTask_ids: "upd_id u = None \<Longrightarrow> map task_id (updateTask now i u ts) = map task_id ts"
  by (induction ts) (auto simp: updateTask_def merge_updates_def override_def)

lemma updateTask_absent: "i \<notin> task_id ` set ts \<Longrightarrow> updateTask now i u ts = ts"
  by (induction ts) (auto simp: updateTask_def)

text \<open>
  C4 (as amended).  \<^verbatim>\<open>updateTask(id, updates)\<close> keeps the length and the order of the
  collection and leaves every task whose id differs from \<open>id\<close> entirely unchanged; if
  no task has that id the whole collection is unchanged.  A task with that id keeps its
  id when the payload has no \<^verbatim>\<open>id\<close> key and takes the payload's id otherwise.
\<close>

theorem updateTask_frame:
  "length (updateTask now i u ts) = length ts
   \<and> (\<forall>k < length ts. task_id (ts ! k) \<noteq> i \<longrightarrow> updateTask now i u ts ! k = ts ! k)
   \<and> (\<forall>k < length ts. task_id (ts ! k) = i \<longrightarrow> task_id (updateTask now i u ts ! k) = override (upd_id u) i)
   \<and> (upd_id u = None \<longrightarrow> map task_id (updateTask now i u ts) = map task_id ts)
   \<and> (i \<notin> task_id ` set ts \<longrightarrow> updateTask now i u ts = ts)"
  using updateTask_ids [of u now i ts] updateTask_absent [of i ts now u]
  by (auto simp: updateTask_def merge_updates_def override_def split: option.splits)

text \<open>A change of title on the second of two tasks, and an update of an unknown id.\<close>

theorem updateTask_frame_witness:
  "upd_id (no_updates\<lparr> upd_title := Some ''Buy bread'' \<rparr>) = None
   \<and> updateTask 2000 ''b'' (no_updates\<lparr> upd_title := Some ''Buy bread'' \<rparr>) two_tasks
       = [two_tasks ! 0, (two_tasks ! 1)\<lparr> title := ''Buy bread'', updatedAt := 2000 \<rparr>]
   \<and> map task_id (updateTask 2000 ''b'' (no_updates\<lparr> upd_title := Some ''Buy bread'' \<rparr>) two_tasks) = [''a'', ''b'']
   \<and> ''z'' \<notin> task_id ` set two_tasks
   \<and> updateTask 2000 ''z'' (no_updates\<lparr> upd_title := Some ''Buy bread'' \<rparr>) two_tasks = two_tasks"
proof -
  have h: "upd_id (no_updates\<lparr> upd_title := Some ''Buy bread'' \<rparr>) = None"
    by (simp add: no_updates_def)
  have z: "''z'' \<notin> task_id ` set two_tasks"
    by (simp add: two_tasks_def sample_def)
  have e: "updateTask 2000 ''b'' (no_updates\<lparr> upd_title := Some ''Buy bread'' \<rparr>) two_tasks
       = [two_tasks ! 0, (two_tasks ! 1)\<lparr> title := ''Buy bread'', updatedAt := 2000 \<rparr>]"
    by (simp add: updateTask_def merge_updates_def override_def no_updates_def two_tasks_def sample_def)
  have i: "map task_id two_tasks = [''a'', ''b'']"
    by (simp add: two_tasks_def sample_def)
  show ?thesis
    using h z e i
      updateTask_frame [of 2000 "''b''" "no_updates\<lparr> upd_title := Some ''Buy bread'' \<rparr>" two_tasks]
      updateTask_frame [of 2000 "''z''" "no_updates\<lparr> upd_title := Some ''Buy bread'' \<rparr>" two_tasks]
    by simp
qed

text \<open>The claim as stated fails when the payload carries an id: the task's id changes.\<close>

theorem updateTask_changes_id:
  "map task_id (updateTask 2000 ''a'' (no_updates\<lparr> upd_id := Some ''b'' \<rparr>) [sample ''a'' Low Pending Null Null])
     \<noteq> map task_id [sample ''a'' Low Pending Null Null]"
  by (simp add: updateTask_def merge_updates_def override_def no_updates_def sample_def)

section \<open>addTask\<close>

text \<open>
  C5 (as amended).  \<^verbatim>\<open>addTask(input)\<close> returns a task whose status is the input's, or
  pending when the input has none; whose \<^verbatim>\<open>completedAt\<close> is not set at all (it is
  \<^verbatim>\<open>undefined\<close>, not \<^verbatim>\<open>null\<close>); whose \<^verbatim>\<open>createdAt\<close> and \<^verbatim>\<open>updatedAt\<close> are the
  readings of two separate calls of \<^verbatim>\<open>new Date()\<close>, equal exactly when the two readings
  are the same instant; whose title, description, due date, priority, tags and list id
  are the input's; and the new collection is the old one with that task in front.
\<close>

theorem addTask_spec:
  "status (fst (addTask nowId rnd nowCreated nowUpdated input prev))
     = (case in_status input of None \<Rightarrow> Pending | Some s \<Rightarrow> s)
   \<and> completedAt (fst (addTask nowId rnd nowCreated nowUpdated input prev)) = Undefined
   \<and> createdAt (fst (addTask nowId rnd nowCreated nowUpdated input prev)) = nowCreated
   \<and> updatedAt (fst (addTask nowId rnd nowCreated nowUpdated input prev)) = nowUpdated
   \<and> (createdAt (fst (addTask nowId rnd nowCreated nowUpdated input prev))
          = updatedAt (fst (addTask nowId rnd nowCreated nowUpdated input prev)))
       = (nowCreated = nowUpdated)
   \<and> title (fst (addTask nowId rnd nowCreated nowUpdated input prev)) = in_title input
   \<and> description (fst (addTask nowId rnd nowCreated nowUpdated input prev)) = in_description input
   \<and> dueDate (fst (addTask nowId rnd nowCreated nowUpdated input prev)) = in_dueDate input
   \<and> priority (fst (addTask nowId rnd nowCreated nowUpdated input prev)) = in_priority input
   \<and> tags (fst (addTask nowId rnd nowCreated nowUpdated input prev)) = in_tags input
   \<and> listId (fst (addTask nowId rnd nowCreated nowUpdated input prev)) = in_listId input
   \<and> snd (addTask nowId rnd nowCreated nowUpdated input prev)
       = fst (addTask nowId rnd nowCreated nowUpdated input prev) # prev"
  by (simp add: addTask_def status_or_pending_def Let_def split: option.splits)

text \<open>
  Adding "Buy milk" with low priority, no due date and no status, every clock reading
  being the same instant; and the same with the status archived asked for.
\<close>

theorem addTask_spec_witness:
  "in_status (sample_input None) = None
   \<and> fst (addTask 1700000000000 ''0.4fzyo82mvyr'' 1700000000000 1700000000000 (sample_input None) two_tasks)
       = \<lparr> task_id = ''task-1700000000000-4fzyo82mv'', title = ''Buy milk'', description = None,
           dueDate = Undefined, priority = Low, status = Pending,
           createdAt = 1700000000000, updatedAt = 1700000000000, completedAt = Undefined,
           tags = None, listId = None \<rparr>
   \<and> status (fst (addTask 1700000000000 ''0.4fzyo82mvyr'' 1700000000000 1700000000000
               (sample_input (Some Archived)) two_tasks))
       = Archived
   \<and> snd (addTask 1700000000000 ''0.4fzyo82mvyr'' 1700000000000 1700000000000 (sample_input None) two_tasks)
       = fst (addTask 1700000000000 ''0.4fzyo82mvyr'' 1700000000000 1700000000000 (sample_input None) two_tasks)
           # two_tasks"
proof -
  have h: "in_status (sample_input None) = None"
    by (simp add: sample_input_def)
  have a: "in_status (sample_input (Some Archived)) = Some Archived"
    by (simp add: sample_input_def)
  have e: "fst (addTask 1700000000000 ''0.4fzyo82mvyr'' 1700000000000 1700000000000 (sample_input None) two_tasks)
       = \<lparr> task_id = ''task-1700000000000-4fzyo82mv'', title = ''Buy milk'', description = None,
           dueDate = Undefined, priority = Low, status = Pending,
           createdAt = 1700000000000, updatedAt = 1700000000000, completedAt = Undefined,
           tags = None, listId = None \<rparr>"
    by (simp add: addTask_def Let_def int_text_def nat_text.simps substr_def sample_input_def
          status_or_pending_def)
  from a addTask_spec [of 1700000000000 "''0.4fzyo82mvyr''" 1700000000000 1700000000000
        "sample_input (Some Archived)" two_tasks]
  have s: "status (fst (addTask 1700000000000 ''0.4fzyo82mvyr'' 1700000000000 1700000000000
               (sample_input (Some Archived)) two_tasks)) = Archived"
    by simp
  from addTask_spec [of 1700000000000 "''0.4fzyo82mvyr''" 1700000000000 1700000000000
        "sample_input None" two_tasks]
  have c: "snd (addTask 1700000000000 ''0.4fzyo82mvyr'' 1700000000000 1700000000000 (sample_input None) two_tasks)
       = fst (addTask 1700000000000 ''0.4fzyo82mvyr'' 1700000000000 1700000000000 (sample_input None) two_tasks)
           # two_tasks"
    by blast
  from h e s c show ?thesis by blast
qed

text \<open>
  The claim as stated fails: the task \<^verbatim>\<open>addTask\<close> returns has no \<^verbatim>\<open>completedAt\<close>, which
  is not the value \<^verbatim>\<open>null\<close>; and when the clock advances between the two calls of
  \<^verbatim>\<open>new Date()\<close>, from 101 to 102, \<^verbatim>\<open>createdAt\<close> and \<^verbatim>\<open>updatedAt\<close> differ.
\<close>

theorem addTask_completedAt_not_null:
  "completedAt (fst (addTask 100 ''0.4fzyo82mvyr'' 100 100 (sample_input None) [])) \<noteq> Null
   \<and> createdAt (fst (addTask 100 ''0.4fzyo82mvyr'' 101 102 (sample_input None) []))
       \<noteq> updatedAt (fst (addTask 100 ''0.4fzyo82mvyr'' 101 102 (sample_input None) []))"
  by (simp add: addTask_def Let_def)

section \<open>The persistence round trip\<close>

lemma roundtrip_field: "date_or_null (nullable_toJSON x) = unset_to_null x"
  by (cases x) simp_all

lemma roundtrip_task: "reconstruct (task_toJSON t) = with_explicit_nulls t"
  by (simp add: reconstruct_def task_toJSON_def with_explicit_nulls_def roundtrip_field)

lemma unset_to_null_id: "x \<noteq> Undefined \<Longrightarrow> unset_to_null x = x"
  by (cases x) simp_all

lemma with_explicit_nulls_id:
  "with_explicit_nulls t = t \<longleftrightarrow> dueDate t \<noteq> Undefined \<and> completedAt t \<noteq> Undefined"
proof
  assume a: "with_explicit_nulls t = t"
  have "dueDate (with_explicit_nulls t) \<noteq> Undefined" "completedAt (with_explicit_nulls t) \<noteq> Undefined"
    by (cases "dueDate t"; cases "completedAt t"; simp add: with_explicit_nulls_def)+
  with a show "dueDate t \<noteq> Undefined \<and> completedAt t \<noteq> Undefined" by simp
next
  assume "dueDate t \<noteq> Undefined \<and> completedAt t \<noteq> Undefined"
  then show "with_explicit_nulls t = t"
    by (simp add: with_explicit_nulls_def unset_to_null_id)
qed

lemma map_with_explicit_nulls_id:
  "(map with_explicit_nulls tasks = tasks)
     = (\<forall>t \<in> set tasks. dueDate t \<noteq> Undefined \<and> completedAt t \<noteq> Undefined)"
  by (induction tasks) (auto simp: with_explicit_nulls_id)

text \<open>
  C6 (as amended).  When the write succeeds and the read does not fail, loading after
  saving yields the saved collection with every unset \<^verbatim>\<open>dueDate\<close> and \<^verbatim>\<open>completedAt\<close>
  replaced by \<^verbatim>\<open>null\<close> and nothing else changed: every date comes back as a date with
  the same instant.  The round trip is therefore the identity exactly on the
  collections in which \<^verbatim>\<open>dueDate\<close> and \<^verbatim>\<open>completedAt\<close> of every task are set, to
  \<^verbatim>\<open>null\<close> or to a date.
\<close>

theorem save_then_load_spec:
  assumes "window s = Some st" and "write_fault st = None" and "read_fault st = None"
  shows "save_then_load key tasks initialValue s = map with_explicit_nulls tasks
   \<and> (save_then_load key tasks initialValue s = tasks
        \<longleftrightarrow> (\<forall>t \<in> set tasks. dueDate t \<noteq> Undefined \<and> completedAt t \<noteq> Undefined))
   \<and> map createdAt (save_then_load key tasks initialValue s) = map createdAt tasks
   \<and> map updatedAt (save_then_load key tasks initialValue s) = map updatedAt tasks"
proof -
  have a: "save_then_load key tasks initialValue s = map with_explicit_nulls tasks"
    using assms
    by (simp add: save_then_load_def setValue_def setValue_try_def setItem_def Let_def
          useLocalStorage_init_def getItem_def stringify_def roundtrip_task)
  have c: "map createdAt (map with_explicit_nulls tasks) = map createdAt tasks"
      "map updatedAt (map with_explicit_nulls tasks) = map updatedAt tasks"
    by (simp_all add: with_explicit_nulls_def)
  show ?thesis
    unfolding a using map_with_explicit_nulls_id [of tasks] c by simp
qed

text \<open>Two tasks with all date fields set, saved to an empty storage and loaded again.\<close>

theorem save_then_load_spec_witness:
  "window (fresh_hook empty_storage) = Some empty_storage
   \<and> write_fault empty_storage = None \<and> read_fault empty_storage = None
   \<and> map dueDate two_tasks = [Value 5000, Null]
   \<and> map completedAt two_tasks = [Value 1000, Null]
   \<and> save_then_load ''nimbustodo_tasks'' two_tasks [] (fresh_hook empty_storage) = two_tasks"
proof -
  have w: "window (fresh_hook empty_storage) = Some empty_storage"
    by (simp add: fresh_hook_def)
  have f: "write_fault empty_storage = None" "read_fault empty_storage = None"
    by (simp_all add: empty_storage_def)
  have d: "\<forall>t \<in> set two_tasks. dueDate t \<noteq> Undefined \<and> completedAt t \<noteq> Undefined"
    by (simp add: two_tasks_def sample_def)
  from d save_then_load_spec [OF w f, of "''nimbustodo_tasks''" two_tasks "[]"]
  have "save_then_load ''nimbustodo_tasks'' two_tasks [] (fresh_hook empty_storage) = two_tasks"
    by blast
  moreover have "map dueDate two_tasks = [Value 5000, Null]"
      "map completedAt two_tasks = [Value 1000, Null]"
    by (simp_all add: two_tasks_def sample_def)
  ultimately show ?thesis using w f by blast
qed

text \<open>
  The claim as stated fails on a task as \<^verbatim>\<open>addTask\<close> makes it: its \<^verbatim>\<open>completedAt\<close>
  and \<^verbatim>\<open>dueDate\<close> are unset before the round trip and \<^verbatim>\<open>null\<close> after it.
\<close>

theorem save_then_load_not_identity:
  "save_then_load ''nimbustodo_tasks''
     [fst (addTask 1700000000000 ''0.4fzyo82mvyr'' 1700000000000 1700000000000 (sample_input None) [])]
     [] (fresh_hook empty_storage)
   \<noteq> [fst (addTask 1700000000000 ''0.4fzyo82mvyr'' 1700000000000 1700000000000 (sample_input None) [])]"
  by (simp add: save_then_load_def setValue_def setValue_try_def setItem_def Let_def
        useLocalStorage_init_def getItem_def stringify_def reconstruct_def task_toJSON_def
        addTask_def fresh_hook_def empty_storage_def sample_input_def)

section \<open>sortByPriority\<close>

lemma insert_by_insort:
  "insert_by priority_cmp x ys = insort_key (\<lambda>t. - getPriorityValue (priority t)) x ys"
  by (induction ys) (auto simp: priority_cmp_def)

lemma array_sort_sort_key:
  "array_sort priority_cmp xs = sort_key (\<lambda>t. - getPriorityValue (priority t)) xs"
  by (induction xs) (simp_all add: array_sort_def insert_by_insort sort_key_def)

lemma getPriorityValue_inj: "getPriorityValue p = getPriorityValue q \<longleftrightarrow> p = q"
  by (cases p; cases q) simp_all

lemma array_sort_mset: "mset (array_sort priority_cmp xs) = mset xs"
  by (simp add: array_sort_sort_key)

lemma array_sort_sorted:
  "sorted_wrt (\<lambda>a b. getPriorityValue (priority a) \<ge> getPriorityValue (priority b))
     (array_sort priority_cmp xs)"
proof -
  have "sorted (map (\<lambda>t. - getPriorityValue (priority t)) (array_sort priority_cmp xs))"
    by (simp add: array_sort_sort_key)
  then show ?thesis
    by (simp add: sorted_map)
qed

lemma array_sort_stable:
  "filter (\<lambda>t. priority t = p) (array_sort priority_cmp xs) = filter (\<lambda>t. priority t = p) xs"
proof -
  have "filter (\<lambda>t. - getPriorityValue (priority t) = - getPriorityValue p) (array_sort priority_cmp xs)
      = filter (\<lambda>t. - getPriorityValue (priority t) = - getPriorityValue p) xs"
    unfolding array_sort_sort_key by (rule sort_key_stable)
  then show ?thesis by (simp add: getPriorityValue_inj)
qed

lemma getPriorityValue_rank: "getPriorityValue p = priorityRank p"
  by (cases p) (simp_all add: priorityRank_def)

text \<open>
  C7.  \<^verbatim>\<open>getPriorityValue\<close> is the rank table low 1, medium 2, high 3, urgent 4.
  \<^verbatim>\<open>sortByPriority(tasks)\<close> returns a new array and leaves every array that existed
  before, the input among them, as it was.  The returned array is a permutation of the
  input, ordered by non-increasing rank, and for each priority the tasks of that
  priority are in the order they had in the input.
\<close>

theorem sortByPriority_stable_sort:
  assumes "tasks < length h"
  shows "getPriorityValue Low = 1 \<and> getPriorityValue Medium = 2
   \<and> getPriorityValue High = 3 \<and> getPriorityValue Urgent = 4
   \<and> fst (sortByPriority h tasks) = length h
   \<and> length (snd (sortByPriority h tasks)) = Suc (length h)
   \<and> (\<forall>a < length h. snd (sortByPriority h tasks) ! a = h ! a)
   \<and> mset (snd (sortByPriority h tasks) ! fst (sortByPriority h tasks)) = mset (h ! tasks)
   \<and> sorted_wrt (\<lambda>a b. priorityRank (priority a) \<ge> priorityRank (priority b))
        (snd (sortByPriority h tasks) ! fst (sortByPriority h tasks))
   \<and> (\<forall>p. filter (\<lambda>t. priority t = p) (snd (sortByPriority h tasks) ! fst (sortByPriority h tasks))
          = filter (\<lambda>t. priority t = p) (h ! tasks))"
proof -
  have s: "sorted_wrt (\<lambda>a b. priorityRank (priority a) \<ge> priorityRank (priority b))
             (array_sort priority_cmp (h ! tasks))"
    using array_sort_sorted [of "h ! tasks"] by (simp add: getPriorityValue_rank)
  show ?thesis
    using assms s
    by (simp add: sortByPriority_def spread_copy_def sort_in_place_def nth_append
          array_sort_mset array_sort_stable)
qed

text \<open>
  Six tasks of priorities low, high, medium, low, urgent, high: the result is urgent,
  high, high, medium, low, low, with the two high and the two low tasks in input order.
\<close>

theorem sortByPriority_stable_sort_witness:
  "(0::nat) < length [six_tasks]
   \<and> sortByPriority [six_tasks] 0
       = (1, [six_tasks,
              [six_tasks ! 4, six_tasks ! 1, six_tasks ! 5, six_tasks ! 2, six_tasks ! 0, six_tasks ! 3]])
   \<and> map priority (snd (sortByPriority [six_tasks] 0) ! 1) = [Urgent, High, High, Medium, Low, Low]
   \<and> map task_id (snd (sortByPriority [six_tasks] 0) ! 1) = [''e'', ''b'', ''f'', ''c'', ''a'', ''d'']
   \<and> snd (sortByPriority [six_tasks] 0) ! 0 = six_tasks"
proof -
  have h: "(0::nat) < length [six_tasks]" by simp
  have e: "sortByPriority [six_tasks] 0
       = (1, [six_tasks,
              [six_tasks ! 4, six_tasks ! 1, six_tasks ! 5, six_tasks ! 2, six_tasks ! 0, six_tasks ! 3]])"
    by (simp add: sortByPriority_def spread_copy_def sort_in_place_def array_sort_def
          priority_cmp_def six_tasks_def sample_def)
  have p: "map priority
             [six_tasks ! 4, six_tasks ! 1, six_tasks ! 5, six_tasks ! 2, six_tasks ! 0, six_tasks ! 3]
           = [Urgent, High, High, Medium, Low, Low]"
    by (simp add: six_tasks_def sample_def)
  have i: "map task_id
             [six_tasks ! 4, six_tasks ! 1, six_tasks ! 5, six_tasks ! 2, six_tasks ! 0, six_tasks ! 3]
           = [''e'', ''b'', ''f'', ''c'', ''a'', ''d'']"
    by (simp add: six_tasks_def sample_def)
  show ?thesis
    using h e p i sortByPriority_stable_sort [OF h]
    by simp
qed

section \<open>groupTasks\<close>

lemma push_to_keys: "map fst (push_to key task g) = map fst g"
  by (induction g) (auto simp: push_to_def)

lemma push_to_other: "key \<notin> set (map fst g) \<Longrightarrow> push_to key task g = g"
  by (induction g) (auto simp: push_to_def)

lemma group_step_keys:
  "map fst (group_step gb g t)
     = (if key_text gb t \<in> set (map fst g) then map fst g else map fst g @ [key_text gb t])"
  by (auto simp: group_step_def Let_def push_to_keys map_of_eq_None_iff)

lemma map_of_push_to:
  "map_of (push_to key task g) k
     = (if k = key then map_option (\<lambda>ts. ts @ [task]) (map_of g k) else map_of g k)"
  by (induction g) (auto simp: push_to_def)

lemma map_of_group_step:
  "map_of (group_step gb g t) k =
     (if k = key_text gb t
      then Some ((case map_of g k of None \<Rightarrow> [] | Some ts \<Rightarrow> ts) @ [t])
      else map_of g k)"
  by (auto simp: group_step_def Let_def map_of_push_to map_of_append map_add_def split: option.splits)

lemma concat_push_to:
  "distinct (map fst g) \<Longrightarrow> key \<in> set (map fst g) \<Longrightarrow>
   mset (concat (map snd (push_to key task g))) = mset (concat (map snd g)) + {#task#}"
proof (induction g)
  case Nil
  then show ?case by simp
next
  case (Cons a g)
  obtain k ts where a: "a = (k, ts)" by (cases a)
  show ?case
  proof (cases "k = key")
    case True
    with Cons.prems a have "key \<notin> set (map fst g)" by simp
    then have "push_to key task g = g" by (rule push_to_other)
    with True a show ?thesis by (simp add: push_to_def)
  next
    case False
    with Cons a show ?thesis by (simp add: push_to_def)
  qed
qed

lemma groupTasks_snoc: "groupTasks (tasks @ [t]) gb = group_step gb (groupTasks tasks gb) t"
  by (simp add: groupTasks_def)

lemma groupTasks_distinct: "distinct (map fst (groupTasks tasks gb))"
  by (induction tasks rule: rev_induct) (simp_all add: groupTasks_snoc group_step_keys, simp add: groupTasks_def)

lemma groupTasks_keys: "set (map fst (groupTasks tasks gb)) = key_text gb ` set tasks"
  by (induction tasks rule: rev_induct) (auto simp: groupTasks_snoc group_step_keys groupTasks_def)

lemma groupTasks_lookup:
  "map_of (groupTasks tasks gb) k =
     (if k \<in> key_text gb ` set tasks then Some (filter (\<lambda>t. key_text gb t = k) tasks) else None)"
proof (induction tasks rule: rev_induct)
  case Nil
  then show ?case by (simp add: groupTasks_def)
next
  case (snoc t tasks)
  have e: "filter (\<lambda>u. key_text gb u = key_text gb t) tasks = []"
    if "key_text gb t \<notin> key_text gb ` set tasks"
    using that by (force simp: filter_empty_conv image_iff)
  show ?case
    unfolding groupTasks_snoc map_of_group_step snoc.IH
    using e by auto
qed

lemma groupTasks_mset: "mset (concat (map snd (groupTasks tasks gb))) = mset tasks"
proof (induction tasks rule: rev_induct)
  case Nil
  then show ?case by (simp add: groupTasks_def)
next
  case (snoc t tasks)
  let ?g = "groupTasks tasks gb"
  let ?g1 = "if map_of ?g (key_text gb t) = None then ?g @ [(key_text gb t, [])] else ?g"
  have d: "distinct (map fst ?g1)"
    using groupTasks_distinct [of tasks gb] by (auto simp: map_of_eq_None_iff)
  have k: "key_text gb t \<in> set (map fst ?g1)"
    by (auto simp: map_of_eq_None_iff)
  have c: "mset (concat (map snd ?g1)) = mset (concat (map snd ?g))" by simp
  have "group_step gb ?g t = push_to (key_text gb t) t ?g1"
    by (simp add: group_step_def Let_def)
  then show ?case
    unfolding groupTasks_snoc using concat_push_to [OF d k, of t] c snoc.IH by simp
qed

lemma groupTasks_entry:
  assumes "(k, ts) \<in> set (groupTasks tasks gb)"
  shows "ts = filter (\<lambda>t. key_text gb t = k) tasks \<and> ts \<noteq> [] \<and> k \<in> key_text gb ` set tasks"
proof -
  from assms have "map_of (groupTasks tasks gb) k = Some ts"
    using groupTasks_distinct [of tasks gb] by simp
  then have a: "k \<in> key_text gb ` set tasks" and b: "ts = filter (\<lambda>t. key_text gb t = k) tasks"
    unfolding groupTasks_lookup by (auto split: if_splits)
  from a b have "ts \<noteq> []" by (auto simp: filter_empty_conv)
  with a b show ?thesis by simp
qed

lemma groupTasks_unique:
  assumes t: "t \<in> set tasks"
  shows "\<exists>!k. \<exists>ts. (k, ts) \<in> set (groupTasks tasks gb) \<and> t \<in> set ts"
proof (rule ex1I [of _ "key_text gb t"])
  have "map_of (groupTasks tasks gb) (key_text gb t)
          = Some (filter (\<lambda>u. key_text gb u = key_text gb t) tasks)"
    using t by (simp add: groupTasks_lookup)
  then have "(key_text gb t, filter (\<lambda>u. key_text gb u = key_text gb t) tasks) \<in> set (groupTasks tasks gb)"
    by (rule map_of_SomeD)
  moreover have "t \<in> set (filter (\<lambda>u. key_text gb u = key_text gb t) tasks)"
    using t by simp
  ultimately show "\<exists>ts. (key_text gb t, ts) \<in> set (groupTasks tasks gb) \<and> t \<in> set ts"
    by blast
next
  fix k
  assume "\<exists>ts. (k, ts) \<in> set (groupTasks tasks gb) \<and> t \<in> set ts"
  then obtain ts where e: "(k, ts) \<in> set (groupTasks tasks gb)" and m: "t \<in> set ts"
    by blast
  from groupTasks_entry [OF e] m show "k = key_text gb t" by auto
qed

lemma status_text_inj: "status_text a = status_text b \<longleftrightarrow> a = b"
  by (cases a; cases b) simp_all

lemma priority_text_inj: "priority_text a = priority_text b \<longleftrightarrow> a = b"
  by (cases a; cases b) simp_all

lemma status_text_literal:
  "status_text s = (case s of Pending \<Rightarrow> ''pending'' | Completed \<Rightarrow> ''completed'' | Archived \<Rightarrow> ''archived'')"
  by (cases s) simp_all

lemma priority_text_literal:
  "priority_text p
     = (case p of Low \<Rightarrow> ''low'' | Medium \<Rightarrow> ''medium'' | High \<Rightarrow> ''high'' | Urgent \<Rightarrow> ''urgent'')"
  by (cases p) simp_all

lemma groupTasks_entry_status:
  assumes "(k, ts) \<in> set (groupTasks tasks ByStatus)"
  shows "ts \<noteq> [] \<and> (\<exists>s. k = (case s of Pending \<Rightarrow> ''pending'' | Completed \<Rightarrow> ''completed''
                                      | Archived \<Rightarrow> ''archived'')
                        \<and> ts = filter (\<lambda>t. status t = s) tasks)"
proof -
  from groupTasks_entry [OF assms]
  have f: "ts = filter (\<lambda>t. key_text ByStatus t = k) tasks" and n: "ts \<noteq> []"
    and m: "k \<in> key_text ByStatus ` set tasks"
    by blast+
  from m obtain u :: Task where k: "k = status_text (status u)" by auto
  from f k have "ts = filter (\<lambda>t. status t = status u) tasks"
    by (simp add: status_text_inj)
  with k n show ?thesis
    unfolding status_text_literal by blast
qed

lemma groupTasks_entry_priority:
  assumes "(k, ts) \<in> set (groupTasks tasks ByPriority)"
  shows "ts \<noteq> [] \<and> (\<exists>p. k = (case p of Low \<Rightarrow> ''low'' | Medium \<Rightarrow> ''medium'' | High \<Rightarrow> ''high''
                                      | Urgent \<Rightarrow> ''urgent'')
                        \<and> ts = filter (\<lambda>t. priority t = p) tasks)"
proof -
  from groupTasks_entry [OF assms]
  have f: "ts = filter (\<lambda>t. key_text ByPriority t = k) tasks" and n: "ts \<noteq> []"
    and m: "k \<in> key_text ByPriority ` set tasks"
    by blast+
  from m obtain u :: Task where k: "k = priority_text (priority u)" by auto
  from f k have "ts = filter (\<lambda>t. priority t = priority u) tasks"
    by (simp add: priority_text_inj)
  with k n show ?thesis
    unfolding priority_text_literal by blast
qed

lemma groupTasks_keys_status:
  "set (map fst (groupTasks tasks ByStatus))
     = (\<lambda>t. case status t of Pending \<Rightarrow> ''pending'' | Completed \<Rightarrow> ''completed''
                            | Archived \<Rightarrow> ''archived'') ` set tasks"
  unfolding groupTasks_keys by (rule image_cong) (simp_all add: status_text_literal)

lemma groupTasks_keys_priority:
  "set (map fst (groupTasks tasks ByPriority))
     = (\<lambda>t. case priority t of Low \<Rightarrow> ''low'' | Medium \<Rightarrow> ''medium'' | High \<Rightarrow> ''high''
                              | Urgent \<Rightarrow> ''urgent'') ` set tasks"
  unfolding groupTasks_keys by (rule image_cong) (simp_all add: priority_text_literal)

text \<open>
  C8.  For a task list and a groupable field (status or priority), the keys of
  \<^verbatim>\<open>groupTasks\<close> are pairwise different and are exactly the values of that field that
  occur among the tasks (\<^verbatim>\<open>'pending'\<close>, \<^verbatim>\<open>'completed'\<close>, \<^verbatim>\<open>'archived'\<close>, or \<^verbatim>\<open>'low'\<close>,
  \<^verbatim>\<open>'medium'\<close>, \<^verbatim>\<open>'high'\<close>, \<^verbatim>\<open>'urgent'\<close>); the group under a key is the list of all
  input tasks whose field has that value, in input order, and is never empty; every
  input task is in the group of exactly one key; and the groups, concatenated, are a
  permutation of the input.
\<close>

theorem groupTasks_partition:
  "distinct (map fst (groupTasks tasks gb))
   \<and> set (map fst (groupTasks tasks ByStatus))
       = (\<lambda>t. case status t of Pending \<Rightarrow> ''pending'' | Completed \<Rightarrow> ''completed''
                              | Archived \<Rightarrow> ''archived'') ` set tasks
   \<and> set (map fst (groupTasks tasks ByPriority))
       = (\<lambda>t. case priority t of Low \<Rightarrow> ''low'' | Medium \<Rightarrow> ''medium'' | High \<Rightarrow> ''high''
                                | Urgent \<Rightarrow> ''urgent'') ` set tasks
   \<and> (\<forall>(k, ts) \<in> set (groupTasks tasks ByStatus).
         ts \<noteq> [] \<and> (\<exists>s. k = (case s of Pending \<Rightarrow> ''pending'' | Completed \<Rightarrow> ''completed''
                                       | Archived \<Rightarrow> ''archived'')
                         \<and> ts = filter (\<lambda>t. status t = s) tasks))
   \<and> (\<forall>(k, ts) \<in> set (groupTasks tasks ByPriority).
         ts \<noteq> [] \<and> (\<exists>p. k = (case p of Low \<Rightarrow> ''low'' | Medium \<Rightarrow> ''medium'' | High \<Rightarrow> ''high''
                                       | Urgent \<Rightarrow> ''urgent'')
                         \<and> ts = filter (\<lambda>t. priority t = p) tasks))
   \<and> (\<forall>t \<in> set tasks. \<exists>!k. \<exists>ts. (k, ts) \<in> set (groupTasks tasks gb) \<and> t \<in> set ts)
   \<and> mset (concat (map snd (groupTasks tasks gb))) = mset tasks"
proof -
  have a: "\<forall>(k, ts) \<in> set (groupTasks tasks ByStatus).
         ts \<noteq> [] \<and> (\<exists>s. k = (case s of Pending \<Rightarrow> ''pending'' | Completed \<Rightarrow> ''completed''
                                       | Archived \<Rightarrow> ''archived'')
                         \<and> ts = filter (\<lambda>t. status t = s) tasks)"
    using groupTasks_entry_status [of _ _ tasks] by blast
  have b: "\<forall>(k, ts) \<in> set (groupTasks tasks ByPriority).
         ts \<noteq> [] \<and> (\<exists>p. k = (case p of Low \<Rightarrow> ''low'' | Medium \<Rightarrow> ''medium'' | High \<Rightarrow> ''high''
                                       | Urgent \<Rightarrow> ''urgent'')
                         \<and> ts = filter (\<lambda>t. priority t = p) tasks)"
    using groupTasks_entry_priority [of _ _ tasks] by blast
  have c: "\<forall>t \<in> set tasks. \<exists>!k. \<exists>ts. (k, ts) \<in> set (groupTasks tasks gb) \<and> t \<in> set ts"
    using groupTasks_unique [of _ tasks gb] by blast
  from a b c groupTasks_distinct [of tasks gb] groupTasks_keys_status [of tasks]
    groupTasks_keys_priority [of tasks] groupTasks_mset [of tasks gb]
  show ?thesis by (intro conjI)
qed

text \<open>
  Six tasks grouped by status (four pending, one completed, one archived) and by
  priority (two low, two high, one medium, one urgent).
\<close>

theorem groupTasks_partition_witness:
  "groupTasks six_tasks ByStatus
     = [(''pending'', [six_tasks ! 0, six_tasks ! 2, six_tasks ! 3, six_tasks ! 5]),
        (''completed'', [six_tasks ! 1]),
        (''archived'', [six_tasks ! 4])]
   \<and> groupTasks six_tasks ByPriority
     = [(''low'', [six_tasks ! 0, six_tasks ! 3]),
        (''high'', [six_tasks ! 1, six_tasks ! 5]),
        (''medium'', [six_tasks ! 2]),
        (''urgent'', [six_tasks ! 4])]
   \<and> mset (concat (map snd (groupTasks six_tasks ByStatus))) = mset six_tasks
   \<and> mset (concat (map snd (groupTasks six_tasks ByPriority))) = mset six_tasks"
proof -
  have e: "groupTasks six_tasks ByStatus
     = [(''pending'', [six_tasks ! 0, six_tasks ! 2, six_tasks ! 3, six_tasks ! 5]),
        (''completed'', [six_tasks ! 1]),
        (''archived'', [six_tasks ! 4])]"
    by (simp add: groupTasks_def group_step_def push_to_def Let_def six_tasks_def sample_def)
  have f: "groupTasks six_tasks ByPriority
     = [(''low'', [six_tasks ! 0, six_tasks ! 3]),
        (''high'', [six_tasks ! 1, six_tasks ! 5]),
        (''medium'', [six_tasks ! 2]),
        (''urgent'', [six_tasks ! 4])]"
    by (simp add: groupTasks_def group_step_def push_to_def Let_def six_tasks_def sample_def)
  from groupTasks_partition [of six_tasks ByStatus]
  have m: "mset (concat (map snd (groupTasks six_tasks ByStatus))) = mset six_tasks"
    by blast
  from groupTasks_partition [of six_tasks ByPriority]
  have n: "mset (concat (map snd (groupTasks six_tasks ByPriority))) = mset six_tasks"
    by blast
  from e f m n show ?thesis by blast
qed

section \<open>A failing write\<close>

text \<open>
  C9.  When \<^verbatim>\<open>setItem\<close> raises inside \<^verbatim>\<open>setValue\<close>, the exception ends the \<^verbatim>\<open>try\<close> block
  only: \<^verbatim>\<open>setValue\<close> itself returns normally, one warning is logged, and the storage is
  as it was.  The in-memory collection is the new value all the same: the collection
  passed, or, when a function was passed, that function applied to the collection held
  before.
\<close>

theorem setValue_write_failure:
  assumes "window s = Some st" and "write_fault st = Some e"
  shows "setValue_try key (Direct new) s = (Thrown e, s\<lparr> storedValue := new \<rparr>)
   \<and> setValue key (Direct new) s =
       (Returned, s\<lparr> storedValue := new,
                     console := console s @ [''Error writing to localStorage ('' @ key @ ''):''] \<rparr>)
   \<and> setValue_try key (Updater f) s = (Thrown e, s\<lparr> storedValue := f (storedValue s) \<rparr>)
   \<and> setValue key (Updater f) s =
       (Returned, s\<lparr> storedValue := f (storedValue s),
                     console := console s @ [''Error writing to localStorage ('' @ key @ ''):''] \<rparr>)
   \<and> storedValue (snd (setValue key (Direct new) s)) = new
   \<and> storedValue (snd (setValue key (Updater f) s)) = f (storedValue s)
   \<and> window (snd (setValue key (Direct new) s)) = Some st
   \<and> window (snd (setValue key (Updater f) s)) = Some st"
  using assms
  by (simp add: setValue_def setValue_try_def setItem_def write_warning_def Let_def)

text \<open>
  On a storage whose quota is exhausted: saving two tasks from an empty hook, and
  deleting task \<open>a\<close> with an updater function from a hook that holds the two tasks.
\<close>

theorem setValue_write_failure_witness:
  "window (fresh_hook full_storage) = Some full_storage
   \<and> window loaded_hook = Some full_storage
   \<and> write_fault full_storage = Some QuotaExceededError
   \<and> setValue ''nimbustodo_tasks'' (Direct two_tasks) (fresh_hook full_storage)
       = (Returned, \<lparr> storedValue = two_tasks, window = Some full_storage,
                      console = [''Error writing to localStorage (nimbustodo_tasks):''] \<rparr>)
   \<and> setValue ''nimbustodo_tasks'' (Updater (filter (\<lambda>task. task_id task \<noteq> ''a''))) loaded_hook
       = (Returned, \<lparr> storedValue = [two_tasks ! 1], window = Some full_storage,
                      console = [''Error writing to localStorage (nimbustodo_tasks):''] \<rparr>)"
proof -
  have w: "window (fresh_hook full_storage) = Some full_storage"
    by (simp add: fresh_hook_def)
  have l: "window loaded_hook = Some full_storage"
    by (simp add: loaded_hook_def)
  have f: "write_fault full_storage = Some QuotaExceededError"
    by (simp add: full_storage_def)
  have d: "filter (\<lambda>task. task_id task \<noteq> ''a'') two_tasks = [two_tasks ! 1]"
    by (simp add: two_tasks_def sample_def)
  from setValue_write_failure [OF w f, of "''nimbustodo_tasks''" two_tasks]
  have a: "setValue ''nimbustodo_tasks'' (Direct two_tasks) (fresh_hook full_storage)
       = (Returned, \<lparr> storedValue = two_tasks, window = Some full_storage,
                      console = [''Error writing to localStorage (nimbustodo_tasks):''] \<rparr>)"
    by (simp add: fresh_hook_def)
  from d setValue_write_failure [OF l f, of "''nimbustodo_tasks''" _ "filter (\<lambda>task. task_id task \<noteq> ''a'')"]
  have b: "setValue ''nimbustodo_tasks'' (Updater (filter (\<lambda>task. task_id task \<noteq> ''a''))) loaded_hook
       = (Returned, \<lparr> storedValue = [two_tasks ! 1], window = Some full_storage,
                      console = [''Error writing to localStorage (nimbustodo_tasks):''] \<rparr>)"
    by (simp add: loaded_hook_def)
  from w l f a b show ?thesis by blast
qed

section \<open>Status query helper\<close>

text \<open>
  C10.  \<^verbatim>\<open>getTasksByStatus('all')\<close> returns, in order, exactly the tasks whose status is
  not archived, so it is the full collection only when nothing is archived;
  \<^verbatim>\<open>getTasksByStatus(s)\<close> for a concrete status returns, in order, exactly the tasks
  whose status is \<open>s\<close>.
\<close>

theorem getTasksByStatus_spec:
  "getTasksByStatus AllStatuses tasks = filter (\<lambda>t. status t \<noteq> Archived) tasks
   \<and> getTasksByStatus (Only s) tasks = filter (\<lambda>t. status t = s) tasks
   \<and> (getTasksByStatus AllStatuses tasks = tasks \<longleftrightarrow> (\<forall>t \<in> set tasks. status t \<noteq> Archived))"
  by (simp add: filter_id_conv)

text \<open>A pending and an archived task.\<close>

theorem getTasksByStatus_spec_witness:
  "getTasksByStatus AllStatuses [sample ''a'' Low Pending Null Null, sample ''b'' High Archived Null Null]
     = [sample ''a'' Low Pending Null Null]
   \<and> getTasksByStatus AllStatuses [sample ''a'' Low Pending Null Null, sample ''b'' High Archived Null Null]
     \<noteq> [sample ''a'' Low Pending Null Null, sample ''b'' High Archived Null Null]
   \<and> getTasksByStatus (Only Archived) [sample ''a'' Low Pending Null Null, sample ''b'' High Archived Null Null]
     = [sample ''b'' High Archived Null Null]"
  using getTasksByStatus_spec [of "[sample ''a'' Low Pending Null Null, sample ''b'' High Archived Null Null]" Archived]
  by (simp add: sample_def)

end
